theory Spec2Isabelle
  imports Complex_Main
begin

section \<open>Values shared by the popup and the content script\<close>

text \<open>
  Both scripts keep the video identifier in a variable that starts as \<^verbatim>\<open>null\<close> and later
  holds what \<^verbatim>\<open>URLSearchParams.get('v')\<close> returned: \<^verbatim>\<open>null\<close> or a string, possibly
  empty. \<open>None\<close> stands for \<^verbatim>\<open>null\<close>/\<^verbatim>\<open>undefined\<close>. Fields of a response body are
  optional strings in the same way (bodies whose fields hold other JSON types are outside
  the model).
\<close>

definition falsy :: "string option \<Rightarrow> bool" where
  "falsy v = (case v of None \<Rightarrow> True | Some s \<Rightarrow> s = [])"

text \<open>\<^verbatim>\<open>a || b\<close> on an optional string and a string literal.\<close>

definition or_else :: "string option \<Rightarrow> string \<Rightarrow> string" where
  "or_else v d = (case v of None \<Rightarrow> d | Some s \<Rightarrow> if s = [] then d else s)"

text \<open>Interpolation \<^verbatim>\<open>${v}\<close> inside a template literal.\<close>

definition interp :: "string option \<Rightarrow> string" where
  "interp v = (case v of None \<Rightarrow> ''undefined'' | Some s \<Rightarrow> s)"

text \<open>Decimal rendering of a non-negative integer, as \<^verbatim>\<open>${response.status}\<close> gives it.\<close>

definition digit_char :: "nat \<Rightarrow> char" where
  "digit_char d = ''0123456789'' ! d"

function show_nat :: "nat \<Rightarrow> string" where
  "show_nat n = (if n < 10 then [digit_char n] else show_nat (n div 10) @ [digit_char (n mod 10)])"
  by pat_completeness auto
termination
  by (relation "measure id") auto

declare show_nat.simps [simp del]

subsection \<open>Requests\<close>

datatype json_value = JNull | JString string | JNumber int

text \<open>
  A \<^verbatim>\<open>fetch(url, {method: 'POST', body: JSON.stringify({...})})\<close>: every fetch of the two
  scripts is a POST with a JSON object body, kept here as the ordered list of its fields.
\<close>

record request =
  url :: string
  body :: "(string \<times> json_value) list"

definition json_id :: "string option \<Rightarrow> json_value" where
  "json_id v = (case v of None \<Rightarrow> JNull | Some s \<Rightarrow> JString s)"

subsection \<open>Responses\<close>

record segment =
  segment_id :: nat
  seg_time :: real
  formatted_time :: string
  seg_title :: string
  seg_keywords :: "string list"

record wiki_info =
  wiki_title :: "string option"
  wiki_summary :: "string option"
  wiki_url :: "string option"

record key_point =
  key_point_text :: "string option"
  wikipedia_info :: "wiki_info option"

record sentiment =
  positive_percentage :: real
  negative_percentage :: real
  total_comments :: nat

record response_body =
  r_status :: "string option"
  r_error :: "string option"
  r_summary :: "string option"
  r_transcript :: "string option"
  r_formatted_time :: "string option"
  r_timestamps :: "segment list option"
  r_keyPoints :: "key_point list option"
  r_sentiment :: "sentiment option"
  r_comments_sample :: "string list option"

text \<open>
  How a fetch settles: the promise rejects (the backend is unreachable) with the browser's
  message, or a response arrives with its HTTP status and a body on which
  \<^verbatim>\<open>response.json()\<close> either rejects (message of the parse error) or yields an object.
\<close>

datatype fetch_outcome =
    Rejected string
  | Responded nat "string + response_body"

definition response_ok :: "nat \<Rightarrow> bool" where
  "response_ok code = (200 \<le> code \<and> code \<le> 299)"

text \<open>
  The first \<^verbatim>\<open>.then\<close> of \<^verbatim>\<open>processFeature\<close> and of the content script's quick actions:
  \<^verbatim>\<open>if (!response.ok) throw new Error(`API responded with status ${response.status}`);
  return response.json();\<close>. \<open>Inl\<close> is the message of the error that reaches \<^verbatim>\<open>.catch\<close>.
\<close>

definition checked_json :: "fetch_outcome \<Rightarrow> string + response_body" where
  "checked_json out =
     (case out of
        Rejected m \<Rightarrow> Inl m
      | Responded code b \<Rightarrow>
          if response_ok code then b
          else Inl (''API responded with status '' @ show_nat code))"

text \<open>
  The first \<^verbatim>\<open>.then\<close> of the segment summary fetches:
  \<^verbatim>\<open>.then(response => response.json())\<close>, with no look at the status.
\<close>

definition unchecked_json :: "fetch_outcome \<Rightarrow> string + response_body" where
  "unchecked_json out =
     (case out of Rejected m \<Rightarrow> Inl m | Responded code b \<Rightarrow> b)"

text \<open>\<^verbatim>\<open>new Error(data.error || 'Unknown error occurred').message\<close>\<close>

definition body_error_message :: "response_body \<Rightarrow> string" where
  "body_error_message d = or_else (r_error d) ''Unknown error occurred''"

text \<open>The message of the \<^verbatim>\<open>TypeError\<close> that Chrome raises on \<^verbatim>\<open>undefined.p\<close>.\<close>

definition undefined_read :: "string \<Rightarrow> string" where
  "undefined_read p = ''Cannot read properties of undefined (reading '' @ [CHR 39] @ p @ [CHR 39] @ '')''"

section \<open>The popup (popup.js)\<close>

subsection \<open>What the popup shows\<close>

text \<open>
  The element \<^verbatim>\<open>segment-container-N\<close> of a timestamp item: its child
  \<^verbatim>\<open>segment-summary-N\<close> when there is one (the loading notice, the summary or the error
  put there by the click handler), and whether the container carries the class
  \<^verbatim>\<open>hidden\<close>. \<^verbatim>\<open>summaryContainer.innerHTML.trim() !== ''\<close> holds exactly when the child is
  there.
\<close>

datatype seg_content =
    SegLoading
  | SegSummary string string
  | SegError string

record container =
  summary_el :: "seg_content option"
  c_hidden :: bool

definition empty_container :: container where
  "empty_container = \<lparr>summary_el = None, c_hidden = False\<rparr>"

text \<open>
  The content of \<^verbatim>\<open>resultContent\<close>. The timestamps list keeps its items in order and its
  containers by segment id: \<^verbatim>\<open>getElementById\<close> finds the first element with an id, which
  is what \<open>map_of\<close> finds.
\<close>

datatype panel =
    InitialContent
  | Spinner
  | SummaryResult string string
  | TimestampsResult "segment list" "nat \<Rightarrow> container option"
  | KeyTermsResult "key_point list"
  | FactcheckResult sentiment "string list"
  | FeaturePlaceholder string
  | ErrorMessage string

definition fresh_containers :: "segment list \<Rightarrow> nat \<Rightarrow> container option" where
  "fresh_containers tss = map_of (map (\<lambda>ts. (segment_id ts, empty_container)) tss)"

text \<open>A fetch of \<^verbatim>\<open>processFeature\<close> that has not settled, with what its handlers closed over.\<close>

datatype pending_fetch =
    GenericFetch string "string option"
  | KeyTermsFetch

datatype tab_message = NavigateToTime real | VerifyConnection

record popup =
  currentVideoId :: "string option"
  cards_disabled :: bool
  toolsGrid_hidden :: bool
  resultContainer_hidden :: bool
  resultContent :: panel
  posts :: "request list"
  feature_fetches :: "pending_fetch list"
  segment_fetches :: "nat list"
  placeholder_timers :: "string list"
  tab_messages :: "tab_message list"

text \<open>
  The page of the active tab, as far as the scripts read it: whether its URL contains
  \<^verbatim>\<open>youtube.com/watch\<close>, the value of its query parameter \<^verbatim>\<open>v\<close>, the
  \<^verbatim>\<open>textContent\<close> of the first element that matches the title selector if there is one,
  whether it has a \<^verbatim>\<open>video\<close> element, and the URL itself.
\<close>

record page =
  is_watch :: bool
  v_param :: "string option"
  title_el :: "string option"
  has_video :: bool
  href :: string

text \<open>
  The popup once \<^verbatim>\<open>DOMContentLoaded\<close> and the callback of the first
  \<^verbatim>\<open>chrome.tabs.query\<close> have run (lines 1-59). Before that callback
  \<^verbatim>\<open>currentVideoId\<close> is \<^verbatim>\<open>null\<close> and a card click returns at once. The result
  container is taken to start hidden, as the Back handler leaves it.
\<close>

definition popup_init :: "page \<Rightarrow> popup" where
  "popup_init pg =
     \<lparr>currentVideoId = (if is_watch pg then v_param pg else None),
      cards_disabled = (if is_watch pg then False else True),
      toolsGrid_hidden = False,
      resultContainer_hidden = True,
      resultContent = InitialContent,
      posts = [],
      feature_fetches = [],
      segment_fetches = [],
      placeholder_timers = [],
      tab_messages = []\<rparr>"

subsection \<open>processFeature (lines 144-471)\<close>

definition apiEndpoints :: "string \<Rightarrow> string option" where
  "apiEndpoints feature =
     (if feature = ''summarize'' then Some ''http://localhost:5000/api/summarize''
      else if feature = ''timestamps'' then Some ''http://localhost:5000/api/timestamps''
      else if feature = ''keypoints_wiki'' then Some ''http://localhost:5000/api/keypoints_wiki''
      else if feature = ''factcheck'' then Some ''http://localhost:5000/api/factcheck''
      else None)"

definition generic_body :: "string option \<Rightarrow> (string \<times> json_value) list" where
  "generic_body videoId =
     [(''videoId'', json_id videoId), (''minLength'', JNumber 150), (''maxLength'', JNumber 300)]"

definition processFeature :: "string \<Rightarrow> string option \<Rightarrow> popup \<Rightarrow> popup" where
  "processFeature feature videoId st =
     (case apiEndpoints feature of
        None \<Rightarrow> st\<lparr>placeholder_timers := placeholder_timers st @ [feature]\<rparr>
      | Some apiUrl \<Rightarrow>
          st\<lparr>posts := posts st @ [\<lparr>url = apiUrl, body = generic_body videoId\<rparr>],
             feature_fetches := feature_fetches st @ [GenericFetch feature videoId]\<rparr>)"

text \<open>The callback of the 1500 ms timer set for a feature with no endpoint (lines 157-163).\<close>

definition placeholder_shown :: "string \<Rightarrow> popup \<Rightarrow> popup" where
  "placeholder_shown feature st = st\<lparr>resultContent := FeaturePlaceholder feature\<rparr>"

definition keypoints_body :: "string option \<Rightarrow> (string \<times> json_value) list" where
  "keypoints_body videoId = [(''videoId'', json_id videoId), (''numPoints'', JNumber 8)]"

text \<open>
  The second \<^verbatim>\<open>.then\<close> of the generic fetch (lines 184-460), on the parsed body. \<open>Inl\<close>
  is the message of an error thrown before anything was written; it reaches the
  \<^verbatim>\<open>.catch\<close> of line 461.
\<close>

definition feature_data :: "string \<Rightarrow> string option \<Rightarrow> response_body \<Rightarrow> popup \<Rightarrow> string + popup" where
  "feature_data feature videoId d st =
     (if r_status d = Some ''error'' then Inl (body_error_message d)
      else if feature = ''summarize'' then
        Inr (st\<lparr>resultContent := SummaryResult (interp (r_summary d)) (interp (r_transcript d))\<rparr>)
      else if feature = ''timestamps'' then
        (case r_timestamps d of
           None \<Rightarrow> Inl (undefined_read ''map'')
         | Some tss \<Rightarrow> Inr (st\<lparr>resultContent := TimestampsResult tss (fresh_containers tss)\<rparr>))
      else if feature = ''keypoints_wiki'' then
        Inr (st\<lparr>posts := posts st @
                  [\<lparr>url = ''http://localhost:5000/api/keypoints_wiki'', body = keypoints_body videoId\<rparr>],
                feature_fetches := feature_fetches st @ [KeyTermsFetch]\<rparr>)
      else if feature = ''factcheck'' then
        (case r_sentiment d of
           None \<Rightarrow> Inl (undefined_read ''positive_percentage'')
         | Some details \<Rightarrow>
             Inr (st\<lparr>resultContent :=
                      FactcheckResult details
                        (case r_comments_sample d of None \<Rightarrow> [] | Some cs \<Rightarrow> cs)\<rparr>))
      else Inr (st\<lparr>resultContent := FeaturePlaceholder feature\<rparr>))"

definition error_shown :: "string \<Rightarrow> popup \<Rightarrow> popup" where
  "error_shown m st = st\<lparr>resultContent := ErrorMessage m\<rparr>"

text \<open>The generic fetch settles: lines 178-183, then 184-460, then the catch of 461-470.\<close>

definition generic_settled :: "string \<Rightarrow> string option \<Rightarrow> fetch_outcome \<Rightarrow> popup \<Rightarrow> popup" where
  "generic_settled feature videoId out st =
     (case checked_json out of
        Inl m \<Rightarrow> error_shown m st
      | Inr d \<Rightarrow>
          (case feature_data feature videoId d st of
             Inl m \<Rightarrow> error_shown m st
           | Inr st' \<Rightarrow> st'))"

text \<open>The fetch of the \<^verbatim>\<open>keypoints_wiki\<close> case settles (lines 239-292).\<close>

definition keyterms_settled :: "fetch_outcome \<Rightarrow> popup \<Rightarrow> popup" where
  "keyterms_settled out st =
     (case checked_json out of
        Inl m \<Rightarrow> error_shown m st
      | Inr d \<Rightarrow>
          if r_status d = Some ''error'' then error_shown (body_error_message d) st
          else (case r_keyPoints d of
                  None \<Rightarrow> error_shown (undefined_read ''forEach'') st
                | Some kps \<Rightarrow> st\<lparr>resultContent := KeyTermsResult kps\<rparr>))"

definition pending_settled :: "pending_fetch \<Rightarrow> fetch_outcome \<Rightarrow> popup \<Rightarrow> popup" where
  "pending_settled p out st =
     (case p of
        GenericFetch feature videoId \<Rightarrow> generic_settled feature videoId out st
      | KeyTermsFetch \<Rightarrow> keyterms_settled out st)"

subsection \<open>The card click handler (lines 62-94)\<close>

text \<open>
  The handler returns at once on a falsy \<^verbatim>\<open>currentVideoId\<close> or a disabled card. Otherwise
  it shows the result view with a spinner and asks the content script to
  \<^verbatim>\<open>verifyConnection\<close>; the callback calls \<^verbatim>\<open>processFeature(feature, currentVideoId)\<close>
  whether the content script answered or not (\<^verbatim>\<open>processFeatureWithFallback\<close> injects a
  notice into the page and then calls it too). The callback is run within the same step.
\<close>

definition card_click :: "string \<Rightarrow> popup \<Rightarrow> popup" where
  "card_click feature st =
     (if falsy (currentVideoId st) \<or> cards_disabled st then st
      else processFeature feature (currentVideoId st)
             (st\<lparr>toolsGrid_hidden := True,
                 resultContainer_hidden := False,
                 resultContent := Spinner,
                 tab_messages := tab_messages st @ [VerifyConnection]\<rparr>))"

subsection \<open>The timestamp item click handler (lines 389-458)\<close>

definition segment_body :: "string option \<Rightarrow> nat \<Rightarrow> (string \<times> json_value) list" where
  "segment_body videoId n = [(''videoId'', json_id videoId), (''segmentId'', JNumber (int n))]"

definition segment_request :: "string option \<Rightarrow> nat \<Rightarrow> request" where
  "segment_request videoId n =
     \<lparr>url = ''http://localhost:5000/api/segment_summary'', body = segment_body videoId n\<rparr>"

text \<open>
  A click on the item rendered for \<open>ts\<close>, while the timestamps list with containers \<open>cs\<close>
  is shown: the seek message, then either the toggle of the class \<^verbatim>\<open>hidden\<close> (container
  not empty, lines 400-407) or the loading notice and the fetch (lines 408-423).
\<close>

definition item_clicked :: "segment list \<Rightarrow> (nat \<Rightarrow> container option) \<Rightarrow> segment \<Rightarrow> popup \<Rightarrow> popup" where
  "item_clicked tss cs ts st =
     (let n = segment_id ts;
          st1 = st\<lparr>tab_messages := tab_messages st @ [NavigateToTime (seg_time ts)]\<rparr>
      in case cs n of
           None \<Rightarrow> st1
         | Some c \<Rightarrow>
             (case summary_el c of
                Some x \<Rightarrow>
                  st1\<lparr>resultContent :=
                        TimestampsResult tss (cs(n \<mapsto> c\<lparr>c_hidden := \<not> c_hidden c\<rparr>))\<rparr>
              | None \<Rightarrow>
                  st1\<lparr>resultContent :=
                        TimestampsResult tss (cs(n \<mapsto> c\<lparr>summary_el := Some SegLoading\<rparr>)),
                      posts := posts st @ [segment_request (currentVideoId st) n],
                      segment_fetches := segment_fetches st @ [n]\<rparr>))"

text \<open>
  The user clicks the \<open>i\<close>-th item of the list. Items exist only while the timestamps list
  is the content of \<^verbatim>\<open>resultContent\<close>, and an item inside a hidden result container
  cannot be clicked.
\<close>

definition item_click :: "nat \<Rightarrow> popup \<Rightarrow> popup" where
  "item_click i st =
     (case resultContent st of
        TimestampsResult tss cs \<Rightarrow>
          if i < length tss \<and> \<not> resultContainer_hidden st
          then item_clicked tss cs (tss ! i) st
          else st
      | _ \<Rightarrow> st)"

subsection \<open>The segment summary fetch settles (lines 424-456)\<close>

definition segment_data :: "response_body \<Rightarrow> string + seg_content" where
  "segment_data d =
     (if r_status d = Some ''success''
      then Inr (SegSummary (interp (r_formatted_time d)) (interp (r_summary d)))
      else Inl (body_error_message d))"

text \<open>
  \<^verbatim>\<open>document.getElementById(`segment-summary-${segmentId}`).innerHTML = ...\<close>: \<open>None\<close> when
  no such element exists, where the assignment throws a \<^verbatim>\<open>TypeError\<close>.
\<close>

definition write_summary :: "nat \<Rightarrow> seg_content \<Rightarrow> popup \<Rightarrow> popup option" where
  "write_summary n x st =
     (case resultContent st of
        TimestampsResult tss cs \<Rightarrow>
          (case cs n of
             None \<Rightarrow> None
           | Some c \<Rightarrow>
               (case summary_el c of
                  None \<Rightarrow> None
                | Some y \<Rightarrow>
                    Some (st\<lparr>resultContent :=
                               TimestampsResult tss (cs(n \<mapsto> c\<lparr>summary_el := Some x\<rparr>))\<rparr>)))
      | _ \<Rightarrow> None)"

text \<open>
  The \<^verbatim>\<open>.catch\<close> of lines 443-456 writes the error into the same element; when the
  element is gone the handler throws again and nothing is written.
\<close>

definition segment_failed :: "nat \<Rightarrow> string \<Rightarrow> popup \<Rightarrow> popup" where
  "segment_failed n m st =
     (case write_summary n (SegError m) st of None \<Rightarrow> st | Some st' \<Rightarrow> st')"

definition segment_settled :: "nat \<Rightarrow> fetch_outcome \<Rightarrow> popup \<Rightarrow> popup" where
  "segment_settled n out st =
     (case unchecked_json out of
        Inl m \<Rightarrow> segment_failed n m st
      | Inr d \<Rightarrow>
          (case segment_data d of
             Inl m \<Rightarrow> segment_failed n m st
           | Inr x \<Rightarrow>
               (case write_summary n x st of
                  None \<Rightarrow> st
                | Some st' \<Rightarrow> st')))"

subsection \<open>The close button of a summary and the Back button\<close>

text \<open>
  The button \<^verbatim>\<open>close-summary-btn\<close> exists once the summary or the error has been written
  (lines 431-438, 448-455); its handler stops the propagation of the click and adds the
  class \<^verbatim>\<open>hidden\<close> to the container.
\<close>

definition has_close_button :: "container \<Rightarrow> bool" where
  "has_close_button c =
     (case summary_el c of
        None \<Rightarrow> False
      | Some SegLoading \<Rightarrow> False
      | Some (SegSummary t s) \<Rightarrow> True
      | Some (SegError m) \<Rightarrow> True)"

definition close_click :: "nat \<Rightarrow> popup \<Rightarrow> popup" where
  "close_click n st =
     (case resultContent st of
        TimestampsResult tss cs \<Rightarrow>
          (case cs n of
             None \<Rightarrow> st
           | Some c \<Rightarrow>
               if has_close_button c \<and> \<not> c_hidden c \<and> \<not> resultContainer_hidden st
               then st\<lparr>resultContent := TimestampsResult tss (cs(n \<mapsto> c\<lparr>c_hidden := True\<rparr>))\<rparr>
               else st)
      | _ \<Rightarrow> st)"

text \<open>
  The Back handler (lines 135-142) shows the tools grid, hides the result container and
  removes every element of class \<^verbatim>\<open>segment-summary\<close>: the children of the containers.
\<close>

definition remove_segment_summaries :: "panel \<Rightarrow> panel" where
  "remove_segment_summaries p =
     (case p of
        TimestampsResult tss cs \<Rightarrow>
          TimestampsResult tss (\<lambda>n. map_option (\<lambda>c. c\<lparr>summary_el := None\<rparr>) (cs n))
      | _ \<Rightarrow> p)"

definition back_click :: "popup \<Rightarrow> popup" where
  "back_click st =
     st\<lparr>toolsGrid_hidden := False,
        resultContainer_hidden := True,
        resultContent := remove_segment_summaries (resultContent st)\<rparr>"

subsection \<open>A popup session\<close>

text \<open>
  The popup is single-threaded: a session is a sequence of events, each handled to its end
  before the next. \<open>CardClick f\<close> and \<open>ItemClick i\<close>, \<open>CloseClick n\<close>, \<open>BackClick\<close> are the
  user's clicks; \<open>FeatureResponse i out\<close> settles the \<open>i\<close>-th pending fetch of
  \<^verbatim>\<open>processFeature\<close>, \<open>SegmentResponse n out\<close> a pending summary fetch of segment \<open>n\<close>, and
  \<open>TimerFired i\<close> runs the \<open>i\<close>-th pending placeholder timer. An event that cannot happen
  in the current state leaves the state as it is: a response nobody waits for, a click on
  an item while the result container is hidden, a click on a card while the tools grid is
  hidden (popup.html is not among the files; the cards are taken to sit in the element of
  class \<^verbatim>\<open>tools-grid\<close>, which the card handler hides and Back shows again).
\<close>

datatype event =
    CardClick string
  | FeatureResponse nat fetch_outcome
  | TimerFired nat
  | ItemClick nat
  | SegmentResponse nat fetch_outcome
  | CloseClick nat
  | BackClick

definition drop_nth :: "nat \<Rightarrow> 'a list \<Rightarrow> 'a list" where
  "drop_nth i xs = take i xs @ drop (Suc i) xs"

fun step :: "popup \<Rightarrow> event \<Rightarrow> popup" where
  "step st (CardClick feature) =
     (if toolsGrid_hidden st then st else card_click feature st)"
| "step st (FeatureResponse i out) =
     (if i < length (feature_fetches st)
      then pending_settled (feature_fetches st ! i) out
             (st\<lparr>feature_fetches := drop_nth i (feature_fetches st)\<rparr>)
      else st)"
| "step st (TimerFired i) =
     (if i < length (placeholder_timers st)
      then placeholder_shown (placeholder_timers st ! i)
             (st\<lparr>placeholder_timers := drop_nth i (placeholder_timers st)\<rparr>)
      else st)"
| "step st (ItemClick i) = item_click i st"
| "step st (SegmentResponse n out) =
     (if n \<in> set (segment_fetches st)
      then segment_settled n out (st\<lparr>segment_fetches := remove1 n (segment_fetches st)\<rparr>)
      else st)"
| "step st (CloseClick n) = close_click n st"
| "step st BackClick = back_click st"

definition run :: "popup \<Rightarrow> event list \<Rightarrow> popup" where
  "run st evs = foldl step st evs"

text \<open>The state of the cache entry of segment \<open>n\<close>: the child of its container, if any.\<close>

definition entry :: "popup \<Rightarrow> nat \<Rightarrow> seg_content option" where
  "entry st n =
     (case resultContent st of
        TimestampsResult tss cs \<Rightarrow> (case cs n of None \<Rightarrow> None | Some c \<Rightarrow> summary_el c)
      | _ \<Rightarrow> None)"

section \<open>The content script (content.js)\<close>

record content =
  c_currentVideoId :: "string option"
  c_currentVideoTitle :: "string option"
  subtitlesText :: "string option"
  observing :: bool
  ytNlpAssistantLoaded :: bool

definition content_start :: content where
  "content_start =
     \<lparr>c_currentVideoId = None, c_currentVideoTitle = None, subtitlesText = None,
      observing = False, ytNlpAssistantLoaded = False\<rparr>"

text \<open>\<^verbatim>\<open>String.prototype.trim\<close> on the white space of ASCII.\<close>

definition is_space :: "char \<Rightarrow> bool" where
  "is_space c = (c \<in> set [CHR '' '', CHR 0x09, CHR 0x0A, CHR 0x0B, CHR 0x0C, CHR 0x0D])"

definition trim :: "string \<Rightarrow> string" where
  "trim s = rev (dropWhile is_space (rev (dropWhile is_space s)))"

text \<open>
  An error that ends a script or a handler: the script is rejected when it is parsed, or a
  name that is declared nowhere is read.
\<close>

datatype js_error = SyntaxError | ReferenceError string

text \<open>A function or handler that has ended: the globals it leaves and the error it threw, if any.\<close>

record finished =
  globals :: content
  thrown :: "js_error option"

text \<open>
  \<^verbatim>\<open>tryGetSubtitles()\<close> is called at lines 26 and 51. No file declares the name: the call
  throws.
\<close>

definition tryGetSubtitles :: js_error where
  "tryGetSubtitles = ReferenceError ''tryGetSubtitles is not defined''"

text \<open>
  \<^verbatim>\<open>initialize\<close> (lines 7-32). Here \<open>title_el\<close> of the page is the \<^verbatim>\<open>textContent\<close> of the
  first element that matches the title selector. On a watch page the identifier and the
  title are assigned, then the call of line 26 throws: lines 27 and 31 are not reached.
\<close>

definition initialize :: "page \<Rightarrow> content \<Rightarrow> finished" where
  "initialize pg st =
     (if is_watch pg then
        \<lparr>globals =
           st\<lparr>c_currentVideoId := v_param pg,
              c_currentVideoTitle :=
                (case title_el pg of
                   Some t \<Rightarrow> Some (trim t)
                 | None \<Rightarrow> Some ''YouTube Video'')\<rparr>,
         thrown = Some tryGetSubtitles\<rparr>
      else \<lparr>globals = st\<lparr>ytNlpAssistantLoaded := True\<rparr>, thrown = None\<rparr>)"

text \<open>
  \<^verbatim>\<open>observeVideoChanges\<close> (lines 34-61) installs the observer; its only call is line 27.
\<close>

definition observeVideoChanges :: "content \<Rightarrow> content" where
  "observeVideoChanges st = st\<lparr>observing := True\<rparr>"

text \<open>
  The callback given to the \<^verbatim>\<open>MutationObserver\<close> (lines 35-55), for the first mutation
  record: on a new identifier it assigns the identifier, assigns the title when a title
  element is found, and then throws at the call of line 51.
\<close>

definition observer_callback :: "page \<Rightarrow> content \<Rightarrow> finished" where
  "observer_callback pg st =
     (if is_watch pg then
        (if falsy (v_param pg) then \<lparr>globals = st, thrown = None\<rparr>
         else if v_param pg = c_currentVideoId st then \<lparr>globals = st, thrown = None\<rparr>
         else
           \<lparr>globals =
              st\<lparr>c_currentVideoId := v_param pg,
                 c_currentVideoTitle :=
                   (case title_el pg of
                      Some t \<Rightarrow> Some (trim t)
                    | None \<Rightarrow> c_currentVideoTitle st)\<rparr>,
            thrown = Some tryGetSubtitles\<rparr>)
      else \<lparr>globals = st, thrown = None\<rparr>)"

text \<open>The document mutates: the callback runs if an observer was installed.\<close>

definition document_mutated :: "page \<Rightarrow> content \<Rightarrow> finished" where
  "document_mutated pg st =
     (if observing st then observer_callback pg st else \<lparr>globals = st, thrown = None\<rparr>)"

subsection \<open>The message listener (lines 63-272)\<close>

datatype reply =
    StatusReply string
  | DetailsReply "string option" "string option" bool string

record handled =
  new_state :: content
  response :: "reply option"
  fetched :: "request list"

definition refresh_title :: "page \<Rightarrow> content \<Rightarrow> content" where
  "refresh_title pg st =
     (if falsy (c_currentVideoTitle st) \<or> c_currentVideoTitle st = Some ''YouTube Video''
      then (case title_el pg of
              Some t \<Rightarrow> st\<lparr>c_currentVideoTitle := Some (trim t)\<rparr>
            | None \<Rightarrow> st)
      else st)"

definition quickSummarize_request :: "string option \<Rightarrow> request" where
  "quickSummarize_request videoId =
     \<lparr>url = ''http://localhost:5000/api/summarize'',
      body = [(''videoId'', json_id videoId), (''minLength'', JNumber 100), (''maxLength'', JNumber 200)]\<rparr>"

definition quickKeyPointsWiki_request :: "string option \<Rightarrow> request" where
  "quickKeyPointsWiki_request videoId =
     \<lparr>url = ''http://localhost:5000/api/keypoints_wiki'',
      body = [(''videoId'', json_id videoId), (''numPoints'', JNumber 5)]\<rparr>"

text \<open>
  The listener passed to \<^verbatim>\<open>chrome.runtime.onMessage.addListener\<close>, on a message with the
  given \<^verbatim>\<open>action\<close>: the new globals, what \<^verbatim>\<open>sendResponse\<close> was called with (\<open>None\<close> when
  it was not called), and the fetches issued. The function ends at line 272, after the
  branch of \<^verbatim>\<open>quickKeyPointsWiki\<close>; the overlay drawn by \<^verbatim>\<open>displayQuickResult\<close> is left
  out.
\<close>

definition onMessage :: "page \<Rightarrow> string \<Rightarrow> content \<Rightarrow> handled" where
  "onMessage pg act st =
     (if act = ''navigateToTime'' then
        \<lparr>new_state = st,
         response = Some (StatusReply (if has_video pg then ''success'' else ''error'')),
         fetched = []\<rparr>
      else if act = ''getVideoDetails'' then
        (let st' = refresh_title pg st in
         \<lparr>new_state = st',
          response = Some (DetailsReply (c_currentVideoId st') (c_currentVideoTitle st')
                             (\<not> falsy (subtitlesText st')) (href pg)),
          fetched = []\<rparr>)
      else if act = ''verifyConnection'' then
        \<lparr>new_state = st, response = Some (StatusReply ''connected''), fetched = []\<rparr>
      else if act = ''quickSummarize'' then
        \<lparr>new_state = st, response = Some (StatusReply ''processing''),
         fetched = [quickSummarize_request (c_currentVideoId st)]\<rparr>
      else if act = ''quickKeyPointsWiki'' then
        \<lparr>new_state = st, response = Some (StatusReply ''processing''),
         fetched = [quickKeyPointsWiki_request (c_currentVideoId st)]\<rparr>
      else \<lparr>new_state = st, response = None, fetched = []\<rparr>)"

text \<open>
  What the overlay shows once the fetch of \<^verbatim>\<open>quickSummarize\<close> has settled (lines 116-141):
  the summary, or the message of the error.
\<close>

datatype quick_result = QuickSummary string | QuickError string

definition quickSummarize_settled :: "fetch_outcome \<Rightarrow> quick_result" where
  "quickSummarize_settled out =
     (case checked_json out of
        Inl m \<Rightarrow> QuickError m
      | Inr d \<Rightarrow>
          if r_status d = Some ''success'' then QuickSummary (interp (r_summary d))
          else QuickError (body_error_message d))"

subsection \<open>The click handler of the quick timestamps (lines 318-375)\<close>

text \<open>
  The overlay of the quick timestamps: its containers \<^verbatim>\<open>quick-segment-container-N\<close>, the
  fetches sent from it and those still pending. The handler of its items has the test of
  the popup's: a container with content is toggled, an empty one gets the loading notice
  and a fetch. It is written inside the \<^verbatim>\<open>quickTimestamps\<close> block of lines 275-392,
  which stands behind the end of the listener.
\<close>

record quick_overlay =
  q_containers :: "nat \<Rightarrow> container option"
  q_posts :: "request list"
  q_fetches :: "nat list"

definition quick_item_clicked :: "string option \<Rightarrow> nat \<Rightarrow> quick_overlay \<Rightarrow> quick_overlay" where
  "quick_item_clicked videoId n ov =
     (case q_containers ov n of
        None \<Rightarrow> ov
      | Some c \<Rightarrow>
          (case summary_el c of
             Some x \<Rightarrow> ov\<lparr>q_containers := (q_containers ov)(n \<mapsto> c\<lparr>c_hidden := \<not> c_hidden c\<rparr>)\<rparr>
           | None \<Rightarrow>
               ov\<lparr>q_containers := (q_containers ov)(n \<mapsto> c\<lparr>summary_el := Some SegLoading\<rparr>),
                  q_posts := q_posts ov @ [segment_request videoId n],
                  q_fetches := q_fetches ov @ [n]\<rparr>))"

subsection \<open>The script as a whole\<close>

text \<open>
  The statements at the top level of content.js, in order. \<open>If_reads v b\<close> is an
  \<^verbatim>\<open>if\<close> whose condition reads the undeclared name \<open>v\<close>, with the statements of its block
  that stand outside any function; \<open>Call_of f\<close> calls the undeclared name \<open>f\<close>;
  \<open>Expression\<close> is any other expression statement and \<open>Declaration\<close> a \<^verbatim>\<open>let\<close> or a
  function declaration.
\<close>

datatype statement =
    Declaration
  | Expression
  | AddListener
  | If_reads string "statement list"
  | Call_of string
  | Return
  | RunInitialize

text \<open>
  Lines 2-4 (three \<^verbatim>\<open>let\<close>), 7-32 and 34-61 (two functions), 63-272 (the listener is
  registered), 275-392 (the \<^verbatim>\<open>quickTimestamps\<close> block, ending in \<^verbatim>\<open>sendResponse(...)\<close> and
  \<^verbatim>\<open>return true\<close>), 395 and 396 (the default response and \<^verbatim>\<open>return true\<close>), 399-626 (four
  functions), 629-633 (\<^verbatim>\<open>initialize\<close> is run, at once or on \<^verbatim>\<open>load\<close>).
\<close>

definition content_js :: "statement list" where
  "content_js =
     [Declaration, Declaration, Declaration,
      Declaration, Declaration,
      AddListener,
      If_reads ''request'' [Expression, Expression, Expression, Call_of ''sendResponse'', Return],
      Call_of ''sendResponse'', Return,
      Declaration, Declaration, Declaration, Declaration,
      RunInitialize]"

text \<open>A \<^verbatim>\<open>return\<close> outside any function: the parser rejects the whole script.\<close>

fun has_return :: "statement \<Rightarrow> bool" where
  "has_return Return = True"
| "has_return (If_reads v b) = list_ex has_return b"
| "has_return s = False"

text \<open>
  The content script in a tab: whether its listener is registered, its globals, and the
  error that ended it.
\<close>

record tab =
  listening :: bool
  tab_globals :: content
  tab_thrown :: "js_error option"

text \<open>The statements of an accepted script run in order, up to the first error.\<close>

fun exec :: "page \<Rightarrow> statement list \<Rightarrow> tab \<Rightarrow> tab" where
  "exec pg [] t = t"
| "exec pg (Declaration # ss) t = exec pg ss t"
| "exec pg (Expression # ss) t = exec pg ss t"
| "exec pg (AddListener # ss) t = exec pg ss (t\<lparr>listening := True\<rparr>)"
| "exec pg (If_reads v b # ss) t = t\<lparr>tab_thrown := Some (ReferenceError (v @ '' is not defined''))\<rparr>"
| "exec pg (Call_of f # ss) t = t\<lparr>tab_thrown := Some (ReferenceError (f @ '' is not defined''))\<rparr>"
| "exec pg (Return # ss) t = t"
| "exec pg (RunInitialize # ss) t =
     (case thrown (initialize pg (tab_globals t)) of
        None \<Rightarrow> exec pg ss (t\<lparr>tab_globals := globals (initialize pg (tab_globals t))\<rparr>)
      | Some e \<Rightarrow>
          t\<lparr>tab_globals := globals (initialize pg (tab_globals t)), tab_thrown := Some e\<rparr>)"

definition load :: "statement list \<Rightarrow> page \<Rightarrow> tab" where
  "load script pg =
     (if list_ex has_return script
      then \<lparr>listening = False, tab_globals = content_start, tab_thrown = Some SyntaxError\<rparr>
      else exec pg script \<lparr>listening = False, tab_globals = content_start, tab_thrown = None\<rparr>)"

text \<open>A message with the given action is sent to the tab.\<close>

definition tab_message :: "tab \<Rightarrow> page \<Rightarrow> string \<Rightarrow> handled" where
  "tab_message t pg act =
     (if listening t then onMessage pg act (tab_globals t)
      else \<lparr>new_state = tab_globals t, response = None, fetched = []\<rparr>)"

text \<open>The document of the tab mutates.\<close>

definition tab_mutated :: "tab \<Rightarrow> page \<Rightarrow> tab" where
  "tab_mutated t pg =
     t\<lparr>tab_globals := globals (document_mutated pg (tab_globals t))\<rparr>"

section \<open>Invariant of a popup session without Back\<close>

text \<open>
  As long as Back is not clicked: before the first card click nothing is pending and
  nothing is shown; at most one fetch or timer of \<^verbatim>\<open>processFeature\<close> is pending, and none
  once the timestamps list is shown; the pending summary fetches are for distinct
  segments, each with the loading notice in its container.
\<close>

definition shows_timestamps :: "popup \<Rightarrow> bool" where
  "shows_timestamps st = (case resultContent st of TimestampsResult tss cs \<Rightarrow> True | _ \<Rightarrow> False)"

definition quiet :: "popup \<Rightarrow> bool" where
  "quiet st = (feature_fetches st = [] \<and> placeholder_timers st = [])"

definition session_inv :: "popup \<Rightarrow> bool" where
  "session_inv st =
     ((toolsGrid_hidden st \<or> (quiet st \<and> resultContent st = InitialContent)) \<and>
      length (feature_fetches st) + length (placeholder_timers st) \<le> 1 \<and>
      (shows_timestamps st \<longrightarrow> quiet st) \<and>
      distinct (segment_fetches st) \<and>
      (\<forall>n \<in> set (segment_fetches st). entry st n = Some SegLoading))"




text \<open>Every item of the shown list has its container, whatever the events were.\<close>

definition containers_inv :: "popup \<Rightarrow> bool" where
  "containers_inv st =
     (case resultContent st of
        TimestampsResult tss cs \<Rightarrow> (\<forall>ts \<in> set tss. cs (segment_id ts) \<noteq> None)
      | _ \<Rightarrow> True)"

text \<open>
  The \<open>i\<close>-th item of the shown list is an item of segment \<open>n\<close> that the user can click,
  and whether the container of segment \<open>n\<close> carries the class \<^verbatim>\<open>hidden\<close>.
\<close>

definition item_of :: "popup \<Rightarrow> nat \<Rightarrow> nat \<Rightarrow> bool" where
  "item_of st i n =
     (case resultContent st of
        TimestampsResult tss cs \<Rightarrow>
          i < length tss \<and> segment_id (tss ! i) = n \<and> \<not> resultContainer_hidden st
      | _ \<Rightarrow> False)"

definition entry_hidden :: "popup \<Rightarrow> nat \<Rightarrow> bool" where
  "entry_hidden st n =
     (case resultContent st of
        TimestampsResult tss cs \<Rightarrow> (case cs n of None \<Rightarrow> False | Some c \<Rightarrow> c_hidden c)
      | _ \<Rightarrow> False)"

text \<open>The \<^verbatim>\<open>data-time\<close> of the \<open>i\<close>-th item of the shown list, as the click handler parses it.\<close>

definition item_time :: "popup \<Rightarrow> nat \<Rightarrow> real" where
  "item_time st i =
     (case resultContent st of TimestampsResult tss cs \<Rightarrow> seg_time (tss ! i) | _ \<Rightarrow> 0)"

section \<open>Sample inputs\<close>

definition watch_page :: page where
  "watch_page =
     \<lparr>is_watch = True, v_param = Some ''abc123'', title_el = Some '' First video '',
      has_video = True, href = ''https://www.youtube.com/watch?v=abc123''\<rparr>"

text \<open>The same tab after an in-page navigation to another video, before its title is in the page.\<close>

definition next_page :: page where
  "next_page =
     \<lparr>is_watch = True, v_param = Some ''xyz789'', title_el = None,
      has_video = True, href = ''https://www.youtube.com/watch?v=xyz789''\<rparr>"

text \<open>A watch page in which no element matches the title selector.\<close>

definition untitled_page :: page where
  "untitled_page =
     \<lparr>is_watch = True, v_param = Some ''abc123'', title_el = None,
      has_video = True, href = ''https://www.youtube.com/watch?v=abc123''\<rparr>"

text \<open>The JSON object \<^verbatim>\<open>{}\<close>, and the segment of the spec's example response.\<close>

definition json_object :: response_body where
  "json_object =
     \<lparr>r_status = None, r_error = None, r_summary = None, r_transcript = None,
      r_formatted_time = None, r_timestamps = None, r_keyPoints = None, r_sentiment = None,
      r_comments_sample = None\<rparr>"

definition intro :: segment where
  "intro =
     \<lparr>segment_id = 0, seg_time = 12.5, formatted_time = ''0:12'', seg_title = ''Intro'',
      seg_keywords = [''hello'']\<rparr>"

definition timestamps_ok :: fetch_outcome where
  "timestamps_ok =
     Responded 200 (Inr (json_object\<lparr>r_status := Some ''success'', r_timestamps := Some [intro]\<rparr>))"

definition summary_ok :: fetch_outcome where
  "summary_ok =
     Responded 200
       (Inr (json_object\<lparr>r_status := Some ''success'', r_summary := Some ''The host says hello.'',
                          r_formatted_time := Some ''0:12''\<rparr>))"

section \<open>Properties\<close>

lemma show_nat_500: "show_nat 500 = ''500''"
  by (simp add: show_nat.simps digit_char_def)

subsection \<open>The invariant is kept by every event but Back\<close>

lemma inv_init: "session_inv (popup_init pg)"
  by (simp add: session_inv_def popup_init_def quiet_def shows_timestamps_def)

lemma entry_not_timestamps: "\<not> shows_timestamps st \<Longrightarrow> entry st n = None"
  by (auto simp: shows_timestamps_def entry_def split: panel.splits)

lemma inv_no_segments: "session_inv st \<Longrightarrow> \<not> shows_timestamps st \<Longrightarrow> segment_fetches st = []"
  by (cases "segment_fetches st") (auto simp: session_inv_def entry_not_timestamps)

lemma inv_card: "session_inv st \<Longrightarrow> session_inv (step st (CardClick f))"
  by (auto simp: session_inv_def card_click_def processFeature_def quiet_def shows_timestamps_def entry_def
      split: option.splits)

lemma inv_item: "session_inv st \<Longrightarrow> session_inv (step st (ItemClick i))"
  by (auto simp: session_inv_def item_click_def item_clicked_def Let_def quiet_def shows_timestamps_def entry_def
      split: option.splits panel.splits)

lemma inv_close: "session_inv st \<Longrightarrow> session_inv (step st (CloseClick i))"
  by (auto simp: session_inv_def close_click_def quiet_def shows_timestamps_def entry_def
      split: option.splits panel.splits)

lemma drop_nth_single: "length xs \<le> 1 \<Longrightarrow> i < length xs \<Longrightarrow> drop_nth i xs = []"
  by (cases xs) (auto simp: drop_nth_def)

lemma pending_fields:
  "segment_fetches (pending_settled p out st) = segment_fetches st"
  "placeholder_timers (pending_settled p out st) = placeholder_timers st"
  "toolsGrid_hidden (pending_settled p out st) = toolsGrid_hidden st"
  by (auto simp: pending_settled_def generic_settled_def keyterms_settled_def feature_data_def error_shown_def
      split: pending_fetch.splits sum.splits option.splits if_splits)

lemma pending_fetches_le:
  "feature_fetches st = [] \<Longrightarrow> length (feature_fetches (pending_settled p out st)) \<le> 1"
  by (auto simp: pending_settled_def generic_settled_def keyterms_settled_def feature_data_def error_shown_def
      split: pending_fetch.splits sum.splits option.splits if_splits)

lemma pending_timestamps_quiet:
  "feature_fetches st = [] \<Longrightarrow> \<not> shows_timestamps st \<Longrightarrow> shows_timestamps (pending_settled p out st)
    \<Longrightarrow> feature_fetches (pending_settled p out st) = []"
  by (auto simp: pending_settled_def generic_settled_def keyterms_settled_def feature_data_def error_shown_def
      shows_timestamps_def
      split: pending_fetch.splits sum.splits option.splits if_splits)

lemma inv_feature: "session_inv st \<Longrightarrow> session_inv (step st (FeatureResponse i out))"
proof (cases "i < length (feature_fetches st)")
  case False
  then show "session_inv st \<Longrightarrow> ?thesis" by simp
next
  case True
  assume inv: "session_inv st"
  from inv have le: "length (feature_fetches st) + length (placeholder_timers st) \<le> 1"
    by (simp add: session_inv_def)
  from le True have one: "length (feature_fetches st) \<le> 1" by simp
  from le True have tm: "placeholder_timers st = []" by (cases "placeholder_timers st") auto
  from True have nq: "\<not> quiet st" by (auto simp: quiet_def)
  from inv nq have nots: "\<not> shows_timestamps st" and hid: "toolsGrid_hidden st"
    by (auto simp: session_inv_def)
  from inv nots have sf: "segment_fetches st = []" by (rule inv_no_segments)
  let ?st0 = "st\<lparr>feature_fetches := drop_nth i (feature_fetches st)\<rparr>"
  let ?st' = "pending_settled (feature_fetches st ! i) out ?st0"
  have ff0: "feature_fetches ?st0 = []" using one True by (simp add: drop_nth_single)
  have nots0: "\<not> shows_timestamps ?st0" using nots by (simp add: shows_timestamps_def)
  have a: "length (feature_fetches ?st') \<le> 1" using ff0 by (rule pending_fetches_le)
  have b: "shows_timestamps ?st' \<Longrightarrow> feature_fetches ?st' = []"
    using ff0 nots0 by (rule pending_timestamps_quiet)
  have "session_inv ?st'"
    using a b tm sf hid by (simp add: session_inv_def pending_fields quiet_def)
  with True show ?thesis by simp
qed

lemma inv_timer: "session_inv st \<Longrightarrow> session_inv (step st (TimerFired i))"
proof (cases "i < length (placeholder_timers st)")
  case False
  then show "session_inv st \<Longrightarrow> ?thesis" by simp
next
  case True
  assume inv: "session_inv st"
  from inv have le: "length (feature_fetches st) + length (placeholder_timers st) \<le> 1"
    by (simp add: session_inv_def)
  from le True have one: "length (placeholder_timers st) \<le> 1" by simp
  from le True have ff: "feature_fetches st = []" by (cases "feature_fetches st") auto
  from True have nq: "\<not> quiet st" by (auto simp: quiet_def)
  from inv nq have nots: "\<not> shows_timestamps st" and hid: "toolsGrid_hidden st"
    by (auto simp: session_inv_def)
  from inv nots have sf: "segment_fetches st = []" by (rule inv_no_segments)
  have "drop_nth i (placeholder_timers st) = []" using one True by (rule drop_nth_single)
  with ff sf hid True show ?thesis
    by (simp add: session_inv_def placeholder_shown_def quiet_def shows_timestamps_def)
qed

lemma write_summary_fields:
  "write_summary n x st = Some st' \<Longrightarrow>
     segment_fetches st' = segment_fetches st \<and> feature_fetches st' = feature_fetches st \<and>
     placeholder_timers st' = placeholder_timers st \<and> toolsGrid_hidden st' = toolsGrid_hidden st \<and>
     posts st' = posts st \<and>
     shows_timestamps st \<and> shows_timestamps st' \<and> entry st' n = Some x \<and> (\<forall>m. m \<noteq> n \<longrightarrow> entry st' m = entry st m)"
  by (auto simp: write_summary_def shows_timestamps_def entry_def split: panel.splits option.splits)

lemma write_summary_loading:
  "entry st n = Some y \<Longrightarrow> \<exists>st'. write_summary n x st = Some st'"
  by (auto simp: write_summary_def entry_def split: panel.splits option.splits)

lemma inv_shown:
  "session_inv st \<Longrightarrow> shows_timestamps st \<Longrightarrow> toolsGrid_hidden st \<and> quiet st"
  by (auto simp: session_inv_def shows_timestamps_def)

lemma inv_segment: "session_inv st \<Longrightarrow> session_inv (step st (SegmentResponse n out))"
proof (cases "n \<in> set (segment_fetches st)")
  case False
  then show "session_inv st \<Longrightarrow> ?thesis" by simp
next
  case True
  assume inv: "session_inv st"
  let ?st0 = "st\<lparr>segment_fetches := remove1 n (segment_fetches st)\<rparr>"
  from inv True have ld: "entry st n = Some SegLoading" by (simp add: session_inv_def)
  then have ld0: "entry ?st0 n = Some SegLoading" by (simp add: entry_def)
  have inv0: "session_inv ?st0"
    using inv by (auto simp: session_inv_def quiet_def shows_timestamps_def entry_def)
  have notin: "n \<notin> set (segment_fetches ?st0)"
    using inv by (simp add: session_inv_def)
  have w: "session_inv st'" if "write_summary n x ?st0 = Some st'" for x st'
  proof -
    note wf = write_summary_fields [OF that]
    from wf inv0 have "toolsGrid_hidden ?st0 \<and> quiet ?st0" by (simp add: inv_shown)
    with wf inv0 notin show ?thesis
      by (auto simp: session_inv_def quiet_def)
  qed
  have f: "session_inv (segment_failed n m ?st0)" for m
    using w inv0 by (auto simp: segment_failed_def split: option.splits)
  have "session_inv (segment_settled n out ?st0)"
    using w f inv0 by (auto simp: segment_settled_def split: sum.splits option.splits)
  with True show ?thesis by simp
qed

lemma inv_step: "session_inv st \<Longrightarrow> e \<noteq> BackClick \<Longrightarrow> session_inv (step st e)"
  using inv_card inv_feature inv_timer inv_item inv_segment inv_close
  by (cases e) (simp_all del: step.simps)

lemma inv_run: "session_inv st \<Longrightarrow> BackClick \<notin> set evs \<Longrightarrow> session_inv (run st evs)"
  unfolding run_def
  by (induction evs arbitrary: st) (auto simp: inv_step simp del: step.simps)

subsection \<open>Cache entries in a session without Back\<close>

lemma entry_keep_step:
  assumes inv: "session_inv st" and e: "e \<noteq> BackClick"
    and x: "entry st n = Some x" and ld: "x \<noteq> SegLoading"
  shows "entry (step st e) n = Some x"
proof -
  from x have sh: "shows_timestamps st"
    using entry_not_timestamps by fastforce
  with inv have hq: "toolsGrid_hidden st \<and> quiet st" by (rule inv_shown)
  show ?thesis
  proof (cases e)
    case (CardClick f)
    with hq x show ?thesis by simp
  next
    case (FeatureResponse i out)
    with hq x show ?thesis by (simp add: quiet_def)
  next
    case (TimerFired i)
    with hq x show ?thesis by (simp add: quiet_def)
  next
    case (ItemClick i)
    with x show ?thesis
      by (auto simp: item_click_def item_clicked_def Let_def entry_def split: panel.splits option.splits)
  next
    case (SegmentResponse m out)
    show ?thesis
    proof (cases "m \<in> set (segment_fetches st)")
      case False
      with SegmentResponse x show ?thesis by simp
    next
      case True
      with inv have "entry st m = Some SegLoading" by (simp add: session_inv_def)
      with x ld have mn: "m \<noteq> n" by auto
      let ?st0 = "st\<lparr>segment_fetches := remove1 m (segment_fetches st)\<rparr>"
      have x0: "entry ?st0 n = Some x" using x by (simp add: entry_def)
      have w: "entry st' n = Some x" if "write_summary m y ?st0 = Some st'" for y st'
        using write_summary_fields [OF that] x0 mn by auto
      have "entry (segment_settled m out ?st0) n = Some x"
        using w x0 by (auto simp: segment_settled_def segment_failed_def split: sum.splits option.splits)
      with SegmentResponse True show ?thesis by simp
    qed
  next
    case (CloseClick m)
    with x show ?thesis
      by (auto simp: close_click_def entry_def split: panel.splits option.splits)
  next
    case BackClick
    with e show ?thesis by simp
  qed
qed

lemma entry_some_step:
  assumes inv: "session_inv st" and e: "e \<noteq> BackClick"
    and x: "entry st n = Some x"
  shows "\<exists>y. entry (step st e) n = Some y"
proof -
  from x have sh: "shows_timestamps st"
    using entry_not_timestamps by fastforce
  with inv have hq: "toolsGrid_hidden st \<and> quiet st" by (rule inv_shown)
  show ?thesis
  proof (cases e)
    case (CardClick f)
    with hq x show ?thesis by simp
  next
    case (FeatureResponse i out)
    with hq x show ?thesis by (simp add: quiet_def)
  next
    case (TimerFired i)
    with hq x show ?thesis by (simp add: quiet_def)
  next
    case (ItemClick i)
    with x show ?thesis
      by (auto simp: item_click_def item_clicked_def Let_def entry_def split: panel.splits option.splits)
  next
    case (SegmentResponse m out)
    show ?thesis
    proof (cases "m \<in> set (segment_fetches st)")
      case False
      with SegmentResponse x show ?thesis by simp
    next
      case True
      let ?st0 = "st\<lparr>segment_fetches := remove1 m (segment_fetches st)\<rparr>"
      have x0: "entry ?st0 n = Some x" using x by (simp add: entry_def)
      have w: "\<exists>z. entry st' n = Some z" if "write_summary m y ?st0 = Some st'" for y st'
        using write_summary_fields [OF that] x0 by (cases "m = n") auto
      have "\<exists>z. entry (segment_settled m out ?st0) n = Some z"
        using w x0 by (auto simp: segment_settled_def segment_failed_def split: sum.splits option.splits)
      with SegmentResponse True show ?thesis by simp
    qed
  next
    case (CloseClick m)
    with x show ?thesis
      by (auto simp: close_click_def entry_def split: panel.splits option.splits)
  next
    case BackClick
    with e show ?thesis by simp
  qed
qed

lemma fresh_containers_empty: "fresh_containers tss n = Some c \<Longrightarrow> summary_el c = None"
  by (auto simp: fresh_containers_def empty_container_def dest!: map_of_SomeD)

lemma entry_pending_none:
  "entry st n = None \<Longrightarrow> entry (pending_settled p out st) n = None"
  by (auto simp: pending_settled_def generic_settled_def keyterms_settled_def feature_data_def error_shown_def
      entry_def fresh_containers_empty
      split: pending_fetch.splits sum.splits option.splits if_splits)

lemma entry_segment_none:
  assumes "entry st n = None"
  shows "entry (segment_settled m out st) n = None"
proof -
  have w: "entry st' n = None" if "write_summary m y st = Some st'" for y st'
  proof (cases "m = n")
    case True
    with assms that show ?thesis
      by (auto simp: write_summary_def entry_def split: panel.splits option.splits)
  next
    case False
    with write_summary_fields [OF that] assms show ?thesis by auto
  qed
  then show ?thesis
    using assms by (auto simp: segment_settled_def segment_failed_def split: sum.splits option.splits)
qed

lemma entry_from_none_step:
  assumes "entry st n = None"
  shows "entry (step st e) n = None \<or> entry (step st e) n = Some SegLoading"
proof (cases e)
  case (CardClick f)
  with assms show ?thesis
    by (auto simp: card_click_def processFeature_def entry_def split: option.splits)
next
  case (FeatureResponse i out)
  from assms have "entry (st\<lparr>feature_fetches := drop_nth i (feature_fetches st)\<rparr>) n = None"
    by (simp add: entry_def)
  then have "entry (pending_settled (feature_fetches st ! i) out
                 (st\<lparr>feature_fetches := drop_nth i (feature_fetches st)\<rparr>)) n = None"
    by (rule entry_pending_none)
  with FeatureResponse assms show ?thesis by simp
next
  case (TimerFired i)
  with assms show ?thesis
    by (auto simp: placeholder_shown_def entry_def)
next
  case (ItemClick i)
  with assms show ?thesis
    by (auto simp: item_click_def item_clicked_def Let_def entry_def split: panel.splits option.splits)
next
  case (SegmentResponse m out)
  from assms have "entry (st\<lparr>segment_fetches := remove1 m (segment_fetches st)\<rparr>) n = None"
    by (simp add: entry_def)
  then have "entry (segment_settled m out (st\<lparr>segment_fetches := remove1 m (segment_fetches st)\<rparr>)) n = None"
    by (rule entry_segment_none)
  with SegmentResponse assms show ?thesis by simp
next
  case (CloseClick m)
  with assms show ?thesis
    by (auto simp: close_click_def entry_def split: panel.splits option.splits)
next
  case BackClick
  then show ?thesis
    by (auto simp: back_click_def remove_segment_summaries_def entry_def split: panel.splits option.splits)
qed

lemma entry_keep_run:
  "session_inv st \<Longrightarrow> BackClick \<notin> set evs \<Longrightarrow> entry st n = Some x \<Longrightarrow> x \<noteq> SegLoading
     \<Longrightarrow> entry (run st evs) n = Some x"
proof (induction evs arbitrary: st)
  case Nil
  then show ?case by (simp add: run_def)
next
  case (Cons e evs)
  from Cons.prems have e: "e \<noteq> BackClick" and evs: "BackClick \<notin> set evs" by auto
  from Cons.prems(1) e have "session_inv (step st e)" by (rule inv_step)
  moreover from Cons.prems(1) e Cons.prems(3,4) have "entry (step st e) n = Some x"
    by (rule entry_keep_step)
  ultimately have "entry (run (step st e) evs) n = Some x"
    using evs Cons.prems(4) by (intro Cons.IH)
  then show ?case by (simp add: run_def)
qed

lemma entry_some_run:
  "session_inv st \<Longrightarrow> BackClick \<notin> set evs \<Longrightarrow> entry st n = Some x
     \<Longrightarrow> \<exists>y. entry (run st evs) n = Some y"
proof (induction evs arbitrary: st x)
  case Nil
  then show ?case by (simp add: run_def)
next
  case (Cons e evs)
  from Cons.prems have e: "e \<noteq> BackClick" and evs: "BackClick \<notin> set evs" by auto
  from Cons.prems(1) e have i: "session_inv (step st e)" by (rule inv_step)
  from Cons.prems(1) e Cons.prems(3) obtain y where "entry (step st e) n = Some y"
    using entry_some_step by blast
  with i evs have "\<exists>z. entry (run (step st e) evs) n = Some z"
    by (intro Cons.IH)
  then show ?case by (simp add: run_def)
qed

lemma run_append: "run st (evs @ evs') = run (run st evs) evs'"
  by (simp add: run_def)

subsection \<open>Containers and clicks\<close>

lemma fresh_containers_dom: "ts \<in> set tss \<Longrightarrow> \<exists>c. fresh_containers tss (segment_id ts) = Some c"
proof -
  assume "ts \<in> set tss"
  then have "segment_id ts \<in> fst ` set (map (\<lambda>ts. (segment_id ts, empty_container)) tss)"
    by force
  then have "fresh_containers tss (segment_id ts) \<noteq> None"
    by (simp only: fresh_containers_def map_of_eq_None_iff not_not)
  then show ?thesis by auto
qed

lemma containers_pending:
  "containers_inv st \<Longrightarrow> containers_inv (pending_settled p out st)"
  by (auto simp: pending_settled_def generic_settled_def keyterms_settled_def feature_data_def error_shown_def
      containers_inv_def fresh_containers_dom
      split: pending_fetch.splits sum.splits option.splits if_splits)

lemma containers_segment:
  "containers_inv st \<Longrightarrow> containers_inv (segment_settled m out st)"
  by (auto simp: segment_settled_def segment_failed_def write_summary_def containers_inv_def
      split: sum.splits option.splits panel.splits)

lemma containers_step: "containers_inv st \<Longrightarrow> containers_inv (step st e)"
proof (cases e)
  case (CardClick f)
  then show "containers_inv st \<Longrightarrow> ?thesis"
    by (auto simp: card_click_def processFeature_def containers_inv_def split: option.splits)
next
  case (FeatureResponse i out)
  assume "containers_inv st"
  then have "containers_inv (st\<lparr>feature_fetches := drop_nth i (feature_fetches st)\<rparr>)"
    by (simp add: containers_inv_def)
  then have "containers_inv (pending_settled (feature_fetches st ! i) out
                 (st\<lparr>feature_fetches := drop_nth i (feature_fetches st)\<rparr>))"
    by (rule containers_pending)
  with FeatureResponse \<open>containers_inv st\<close> show ?thesis by simp
next
  case (TimerFired i)
  then show "containers_inv st \<Longrightarrow> ?thesis"
    by (auto simp: placeholder_shown_def containers_inv_def)
next
  case (ItemClick i)
  then show "containers_inv st \<Longrightarrow> ?thesis"
    by (auto simp: item_click_def item_clicked_def Let_def containers_inv_def split: panel.splits option.splits)
next
  case (SegmentResponse m out)
  assume "containers_inv st"
  then have "containers_inv (st\<lparr>segment_fetches := remove1 m (segment_fetches st)\<rparr>)"
    by (simp add: containers_inv_def)
  then have "containers_inv (segment_settled m out (st\<lparr>segment_fetches := remove1 m (segment_fetches st)\<rparr>))"
    by (rule containers_segment)
  with SegmentResponse \<open>containers_inv st\<close> show ?thesis by simp
next
  case (CloseClick m)
  then show "containers_inv st \<Longrightarrow> ?thesis"
    by (auto simp: close_click_def containers_inv_def split: panel.splits option.splits)
next
  case BackClick
  then show "containers_inv st \<Longrightarrow> ?thesis"
    by (auto simp: back_click_def remove_segment_summaries_def containers_inv_def split: panel.splits)
qed

lemma containers_run: "containers_inv st \<Longrightarrow> containers_inv (run st evs)"
  unfolding run_def
  by (induction evs arbitrary: st) (auto simp: containers_step simp del: step.simps)

lemma containers_init: "containers_inv (popup_init pg)"
  by (simp add: containers_inv_def popup_init_def)

lemma click_on_entry:
  assumes "item_of st i n" and "entry st n = Some x"
  shows "posts (step st (ItemClick i)) = posts st
     \<and> segment_fetches (step st (ItemClick i)) = segment_fetches st
     \<and> feature_fetches (step st (ItemClick i)) = feature_fetches st
     \<and> (\<forall>m. entry (step st (ItemClick i)) m = entry st m)
     \<and> entry_hidden (step st (ItemClick i)) n = (\<not> entry_hidden st n)
     \<and> item_of (step st (ItemClick i)) i n"
  using assms
  by (auto simp: item_of_def item_click_def item_clicked_def Let_def entry_def entry_hidden_def
      split: panel.splits option.splits)

lemma click_on_empty:
  assumes "item_of st i n" and "entry st n = None" and "containers_inv st"
  shows "posts (step st (ItemClick i)) = posts st @ [segment_request (currentVideoId st) n]
     \<and> segment_fetches (step st (ItemClick i)) = segment_fetches st @ [n]
     \<and> entry (step st (ItemClick i)) n = Some SegLoading
     \<and> item_of (step st (ItemClick i)) i n"
proof -
  from assms(1) obtain tss cs where rc: "resultContent st = TimestampsResult tss cs"
    and i: "i < length tss" and n: "segment_id (tss ! i) = n" and vis: "\<not> resultContainer_hidden st"
    by (auto simp: item_of_def split: panel.splits)
  from i have "tss ! i \<in> set tss" by simp
  with assms(3) rc n obtain c where c: "cs n = Some c"
    by (fastforce simp: containers_inv_def)
  with assms(2) rc have "summary_el c = None" by (simp add: entry_def)
  with rc i n vis c show ?thesis
    by (simp add: item_of_def item_click_def item_clicked_def Let_def entry_def)
qed

lemma close_on_entry:
  "posts (step st (CloseClick m)) = posts st
     \<and> segment_fetches (step st (CloseClick m)) = segment_fetches st
     \<and> feature_fetches (step st (CloseClick m)) = feature_fetches st
     \<and> entry (step st (CloseClick m)) n = entry st n"
  by (auto simp: close_click_def entry_def split: panel.splits option.splits)

lemma clicks_on_entry:
  "item_of st i n \<Longrightarrow> entry st n = Some x \<Longrightarrow>
     posts (run st (replicate k (ItemClick i))) = posts st
     \<and> segment_fetches (run st (replicate k (ItemClick i))) = segment_fetches st
     \<and> entry (run st (replicate k (ItemClick i))) n = Some x"
proof (induction k arbitrary: st)
  case 0
  then show ?case by (simp add: run_def)
next
  case (Suc k)
  note c = click_on_entry [OF Suc.prems]
  then have "item_of (step st (ItemClick i)) i n" and "entry (step st (ItemClick i)) n = Some x"
    using Suc.prems(2) by simp_all
  then have "posts (run (step st (ItemClick i)) (replicate k (ItemClick i))) = posts (step st (ItemClick i))
     \<and> segment_fetches (run (step st (ItemClick i)) (replicate k (ItemClick i)))
         = segment_fetches (step st (ItemClick i))
     \<and> entry (run (step st (ItemClick i)) (replicate k (ItemClick i))) n = Some x"
    by (rule Suc.IH)
  with c show ?case by (simp add: run_def)
qed

subsection \<open>Requests for a stored entry in a session without Back\<close>

lemma segment_request_inj: "segment_request v m = segment_request v' n \<Longrightarrow> m = n"
  by (simp add: segment_request_def segment_body_def)

lemma posts_keep_step:
  assumes inv: "session_inv st" and e: "e \<noteq> BackClick"
    and x: "entry st n = Some x"
  shows "count_list (posts (step st e)) (segment_request v n) = count_list (posts st) (segment_request v n)"
proof -
  from x have sh: "shows_timestamps st"
    using entry_not_timestamps by fastforce
  with inv have hq: "toolsGrid_hidden st \<and> quiet st" by (rule inv_shown)
  show ?thesis
  proof (cases e)
    case (CardClick f)
    with hq show ?thesis by simp
  next
    case (FeatureResponse i out)
    with hq show ?thesis by (simp add: quiet_def)
  next
    case (TimerFired i)
    with hq show ?thesis by (simp add: quiet_def)
  next
    case (ItemClick i)
    with x show ?thesis
      by (auto simp: item_click_def item_clicked_def Let_def entry_def
          dest: segment_request_inj split: panel.splits option.splits)
  next
    case (SegmentResponse m out)
    let ?st0 = "st\<lparr>segment_fetches := remove1 m (segment_fetches st)\<rparr>"
    have w: "posts st' = posts st" if "write_summary m y ?st0 = Some st'" for y st'
      using write_summary_fields [OF that] by simp
    have "posts (segment_settled m out ?st0) = posts st"
      using w by (auto simp: segment_settled_def segment_failed_def split: sum.splits option.splits)
    with SegmentResponse show ?thesis by simp
  next
    case (CloseClick m)
    then show ?thesis using close_on_entry [of st m n] by simp
  next
    case BackClick
    with e show ?thesis by simp
  qed
qed

lemma posts_keep_run:
  "session_inv st \<Longrightarrow> BackClick \<notin> set evs \<Longrightarrow> entry st n = Some x \<Longrightarrow> x \<noteq> SegLoading
     \<Longrightarrow> count_list (posts (run st evs)) (segment_request v n)
         = count_list (posts st) (segment_request v n)"
proof (induction evs arbitrary: st)
  case Nil
  then show ?case by (simp add: run_def)
next
  case (Cons e evs)
  from Cons.prems have e: "e \<noteq> BackClick" and evs: "BackClick \<notin> set evs" by auto
  from Cons.prems(1) e have i: "session_inv (step st e)" by (rule inv_step)
  from Cons.prems(1) e Cons.prems(3,4) have k: "entry (step st e) n = Some x"
    by (rule entry_keep_step)
  from Cons.prems(1) e Cons.prems(3)
  have p: "count_list (posts (step st e)) (segment_request v n) = count_list (posts st) (segment_request v n)"
    by (rule posts_keep_step)
  from i evs k Cons.prems(4)
  have "count_list (posts (run (step st e) evs)) (segment_request v n)
         = count_list (posts (step st e)) (segment_request v n)"
    by (rule Cons.IH)
  with p show ?case by (simp add: run_def)
qed

lemma click_on_entry_display:
  assumes "item_of st i n" and "entry st n = Some x"
  shows "tab_messages (step st (ItemClick i)) = tab_messages st @ [NavigateToTime (item_time st i)]
     \<and> placeholder_timers (step st (ItemClick i)) = placeholder_timers st
     \<and> (\<forall>m. m \<noteq> n \<longrightarrow> entry_hidden (step st (ItemClick i)) m = entry_hidden st m)"
  using assms
  by (auto simp: item_of_def item_click_def item_clicked_def Let_def entry_def entry_hidden_def item_time_def
      split: panel.splits option.splits)

lemma close_is_display:
  "tab_messages (step st (CloseClick m)) = tab_messages st"
  by (auto simp: close_click_def split: panel.splits option.splits)

subsection \<open>The click handler of the quick timestamps\<close>

lemma quick_click_on_entry:
  "q_containers ov n = Some c \<Longrightarrow> summary_el c = Some x \<Longrightarrow>
     q_posts (quick_item_clicked v n ov) = q_posts ov
     \<and> q_fetches (quick_item_clicked v n ov) = q_fetches ov
     \<and> q_containers (quick_item_clicked v n ov) n = Some (c\<lparr>c_hidden := \<not> c_hidden c\<rparr>)"
  by (simp add: quick_item_clicked_def)

lemma quick_click_twice:
  "q_containers ov n = Some c \<Longrightarrow> summary_el c = None \<Longrightarrow>
     q_posts (quick_item_clicked v n (quick_item_clicked v n ov)) = q_posts ov @ [segment_request v n]
     \<and> q_fetches (quick_item_clicked v n (quick_item_clicked v n ov)) = q_fetches ov @ [n]"
  by (simp add: quick_item_clicked_def)

subsection \<open>Video identifiers in the popup's requests\<close>




lemma step_currentVideoId: "currentVideoId (step st e) = currentVideoId st"
proof (cases e)
  case (CardClick f)
  then show ?thesis by (auto simp: card_click_def processFeature_def split: option.splits)
next
  case (FeatureResponse i out)
  then show ?thesis
    by (auto simp: pending_settled_def generic_settled_def keyterms_settled_def feature_data_def error_shown_def
      split: pending_fetch.splits sum.splits option.splits if_splits)
next
  case (TimerFired i)
  then show ?thesis by (auto simp: placeholder_shown_def)
next
  case (ItemClick i)
  then show ?thesis
    by (auto simp: item_click_def item_clicked_def Let_def split: panel.splits option.splits)
next
  case (SegmentResponse m out)
  then show ?thesis
    by (auto simp: segment_settled_def segment_failed_def write_summary_def
        split: sum.splits option.splits panel.splits)
next
  case (CloseClick m)
  then show ?thesis by (auto simp: close_click_def split: panel.splits option.splits)
next
  case BackClick
  then show ?thesis by (simp add: back_click_def)
qed




subsection \<open>The title at initial load\<close>

lemma initialize_title_fallback:
  "is_watch pg \<Longrightarrow> title_el pg = None \<Longrightarrow>
     c_currentVideoTitle (globals (initialize pg st)) = Some ''YouTube Video''"
  by (simp add: initialize_def)

lemma initialize_installs_no_observer:
  "observing (globals (initialize pg st)) = observing st"
  by (simp add: initialize_def)

lemma content_js_rejected: "list_ex has_return content_js"
  by (simp add: content_js_def)

text \<open>The body of the observer's callback has no fallback for a missing title element.\<close>

lemma observer_callback_keeps_title:
  "is_watch pg \<Longrightarrow> \<not> falsy (v_param pg) \<Longrightarrow> v_param pg \<noteq> c_currentVideoId st \<Longrightarrow> title_el pg = None
     \<Longrightarrow> c_currentVideoTitle (globals (observer_callback pg st)) = c_currentVideoTitle st"
  by (simp add: observer_callback_def)


lemmas sample_defs = watch_page_def next_page_def untitled_page_def
  json_object_def intro_def timestamps_ok_def summary_ok_def

lemmas popup_defs = run_def popup_init_def card_click_def falsy_def processFeature_def
  apiEndpoints_def generic_body_def json_id_def pending_settled_def generic_settled_def
  checked_json_def response_ok_def feature_data_def drop_nth_def fresh_containers_def
  empty_container_def item_click_def item_clicked_def segment_request_def segment_body_def
  back_click_def remove_segment_summaries_def segment_settled_def unchecked_json_def
  segment_data_def write_summary_def segment_failed_def body_error_message_def or_else_def
  interp_def keypoints_body_def keyterms_settled_def error_shown_def entry_def

subsection \<open>Requests sent by the popup\<close>

text \<open>
  C3. Claimed: one user action makes the dispatcher send exactly one POST, in particular one
  POST to \<^verbatim>\<open>/api/keypoints_wiki\<close> when that feature is selected. In the popup, one click on
  the \<^verbatim>\<open>keypoints_wiki\<close> card whose first response is a success sends two POSTs to
  \<^verbatim>\<open>/api/keypoints_wiki\<close>: the generic one of line 167 and, from its handler, the one of
  line 229.
\<close>

theorem C3_keypoints_wiki_posts_twice:
  "posts (run (popup_init watch_page)
       [CardClick ''keypoints_wiki'',
        FeatureResponse 0
          (Responded 200 (Inr (json_object\<lparr>r_status := Some ''success'', r_keyPoints := Some []\<rparr>)))])
   = [\<lparr>url = ''http://localhost:5000/api/keypoints_wiki'',
       body = [(''videoId'', JString ''abc123''), (''minLength'', JNumber 150), (''maxLength'', JNumber 300)]\<rparr>,
      \<lparr>url = ''http://localhost:5000/api/keypoints_wiki'',
       body = [(''videoId'', JString ''abc123''), (''numPoints'', JNumber 8)]\<rparr>]"
  by (simp add: sample_defs popup_defs)

text \<open>
  C7. Claimed: the bodies sent to \<^verbatim>\<open>/api/timestamps\<close> and \<^verbatim>\<open>/api/factcheck\<close> hold the field
  \<^verbatim>\<open>videoId\<close> and nothing else. The popup sends the body of line 172, with
  \<^verbatim>\<open>minLength\<close> and \<^verbatim>\<open>maxLength\<close>, to every endpoint.
\<close>

theorem C7_generic_body_sent_to_every_endpoint:
  "posts (run (popup_init watch_page) [CardClick ''timestamps''])
   = [\<lparr>url = ''http://localhost:5000/api/timestamps'',
       body = [(''videoId'', JString ''abc123''), (''minLength'', JNumber 150), (''maxLength'', JNumber 300)]\<rparr>]
   \<and> posts (run (popup_init watch_page) [CardClick ''factcheck''])
   = [\<lparr>url = ''http://localhost:5000/api/factcheck'',
       body = [(''videoId'', JString ''abc123''), (''minLength'', JNumber 150), (''maxLength'', JNumber 300)]\<rparr>]"
  by (simp add: sample_defs popup_defs)

subsection \<open>Errors\<close>

text \<open>
  What \<^verbatim>\<open>processFeature\<close> and the quick actions make of a status outside 200-299: an error
  whose message ends with the status code in decimal.
\<close>

lemma checked_json_status:
  "\<not> response_ok code \<Longrightarrow>
     checked_json (Responded code b) = Inl (''API responded with status '' @ show_nat code)"
  by (simp add: checked_json_def)

text \<open>
  C4. Claimed: on every endpoint a non-success HTTP status gives an error whose message
  contains the status code, also on \<^verbatim>\<open>/api/segment_summary\<close>. The handler of the segment
  summary fetch never reads the status: on a response with status 500 it shows the
  message of the body's error field, and when the body says \<^verbatim>\<open>success\<close> it shows the
  summary.
\<close>

theorem C4_segment_summary_ignores_http_status:
  "entry (run (popup_init watch_page)
       [CardClick ''timestamps'', FeatureResponse 0 timestamps_ok, ItemClick 0,
        SegmentResponse 0
          (Responded 500
             (Inr (json_object\<lparr>r_status := Some ''error'', r_error := Some ''model crashed''\<rparr>)))]) 0
   = Some (SegError ''model crashed'')
   \<and> entry (run (popup_init watch_page)
       [CardClick ''timestamps'', FeatureResponse 0 timestamps_ok, ItemClick 0,
        SegmentResponse 0
          (Responded 500
             (Inr (json_object\<lparr>r_status := Some ''success'', r_summary := Some ''partial'',
                                r_formatted_time := Some ''0:12''\<rparr>)))]) 0
   = Some (SegSummary ''0:12'' ''partial'')"
  by (simp add: sample_defs popup_defs)

text \<open>
  C5. Claimed: a body whose status field is not \<^verbatim>\<open>"success"\<close> gives an error with the
  message of its error field. \<^verbatim>\<open>processFeature\<close> of the popup throws only when the status
  is \<^verbatim>\<open>"error"\<close> (line 185): a body with another status is rendered as a result. The
  quick action of the content script (line 123) gives the error on the same body.
\<close>

theorem C5_popup_reads_unknown_status_as_success:
  "resultContent (run (popup_init watch_page)
       [CardClick ''summarize'',
        FeatureResponse 0
          (Responded 200
             (Inr (json_object\<lparr>r_status := Some ''failed'', r_error := Some ''quota exceeded''\<rparr>)))])
   = SummaryResult ''undefined'' ''undefined''
   \<and> quickSummarize_settled
         (Responded 200
            (Inr (json_object\<lparr>r_status := Some ''failed'', r_error := Some ''quota exceeded''\<rparr>)))
       = QuickError ''quota exceeded''"
  by (simp add: sample_defs popup_defs quickSummarize_settled_def)

subsection \<open>The page context\<close>

text \<open>
  C6. Claimed: when the page context is resolved, at initial load and again after an
  in-page navigation, and no title element is found, the title is \<^verbatim>\<open>"YouTube Video"\<close> and
  no error is raised. The script as stored is rejected when it is parsed (a \<^verbatim>\<open>return\<close>
  outside any function, lines 391 and 396): nothing runs, and the title is never resolved,
  at load or after a navigation. \<^verbatim>\<open>initialize\<close> as written does assign \<^verbatim>\<open>"YouTube Video"\<close>
  but then throws at the call of the undeclared \<^verbatim>\<open>tryGetSubtitles\<close>, before the observer is
  installed: a later navigation changes neither the identifier nor the title.
\<close>

theorem C6_title_not_resolved:
  "load content_js untitled_page
     = \<lparr>listening = False, tab_globals = content_start, tab_thrown = Some SyntaxError\<rparr>
   \<and> c_currentVideoTitle (tab_globals (tab_mutated (load content_js watch_page) next_page)) = None
   \<and> c_currentVideoTitle (globals (initialize untitled_page content_start)) = Some ''YouTube Video''
   \<and> thrown (initialize untitled_page content_start)
       = Some (ReferenceError ''tryGetSubtitles is not defined'')
   \<and> observing (globals (initialize untitled_page content_start)) = False
   \<and> c_currentVideoId (globals (initialize watch_page content_start)) = Some ''abc123''
   \<and> c_currentVideoTitle (globals (initialize watch_page content_start)) = Some ''First video''
   \<and> document_mutated next_page (globals (initialize watch_page content_start))
       = \<lparr>globals = globals (initialize watch_page content_start), thrown = None\<rparr>"
  by (simp add: sample_defs load_def content_js_def tab_mutated_def document_mutated_def
      initialize_def content_start_def tryGetSubtitles_def trim_def is_space_def)

subsection \<open>Messages to the content script\<close>

text \<open>
  C9. Claimed: each of the six actions is answered by the listener, \<^verbatim>\<open>quickTimestamps\<close>
  included. The listener ends after the branch of \<^verbatim>\<open>quickKeyPointsWiki\<close>; on
  \<^verbatim>\<open>quickTimestamps\<close> it falls through: no response is sent, nothing is fetched and the
  globals keep their values.
\<close>

theorem C9_quickTimestamps_is_not_answered:
  "response (onMessage pg ''quickTimestamps'' st) = None
   \<and> fetched (onMessage pg ''quickTimestamps'' st) = []
   \<and> new_state (onMessage pg ''quickTimestamps'' st) = st"
  by (simp add: onMessage_def)


subsection \<open>The segment summary cache\<close>

text \<open>
  C1 (as amended). In a popup session in which Back is not clicked, at every moment: the
  pending fetches to \<^verbatim>\<open>/api/segment_summary\<close> are for distinct segments (never two in
  flight for one \<^verbatim>\<open>segmentId\<close>); a click on an item whose segment has a fetch pending
  sends nothing; and two clicks in a row on an item whose segment has no entry send
  exactly one POST to \<^verbatim>\<open>/api/segment_summary\<close>, for that segment.
\<close>

theorem C1_single_fetch_without_back:
  assumes "BackClick \<notin> set evs"
  shows "distinct (segment_fetches (run (popup_init pg) evs))
     \<and> (\<forall>i n. item_of (run (popup_init pg) evs) i n \<and> n \<in> set (segment_fetches (run (popup_init pg) evs))
           \<longrightarrow> posts (step (run (popup_init pg) evs) (ItemClick i)) = posts (run (popup_init pg) evs)
             \<and> segment_fetches (step (run (popup_init pg) evs) (ItemClick i))
               = segment_fetches (run (popup_init pg) evs))
     \<and> (\<forall>i n. item_of (run (popup_init pg) evs) i n \<and> entry (run (popup_init pg) evs) n = None
           \<longrightarrow> posts (run (popup_init pg) (evs @ [ItemClick i, ItemClick i]))
               = posts (run (popup_init pg) evs)
                 @ [segment_request (currentVideoId (run (popup_init pg) evs)) n]
             \<and> segment_fetches (run (popup_init pg) (evs @ [ItemClick i, ItemClick i]))
               = segment_fetches (run (popup_init pg) evs) @ [n])"
proof -
  let ?st = "run (popup_init pg) evs"
  have inv: "session_inv ?st" using inv_init assms by (rule inv_run)
  have cont: "containers_inv ?st" using containers_init by (rule containers_run)
  have a: "distinct (segment_fetches ?st)" using inv by (simp add: session_inv_def)
  have b: "posts (step ?st (ItemClick i)) = posts ?st
         \<and> segment_fetches (step ?st (ItemClick i)) = segment_fetches ?st"
    if "item_of ?st i n" and "n \<in> set (segment_fetches ?st)" for i n
  proof -
    from inv that(2) have "entry ?st n = Some SegLoading" by (simp add: session_inv_def)
    with that(1) show ?thesis using click_on_entry by blast
  qed
  have c: "posts (run (popup_init pg) (evs @ [ItemClick i, ItemClick i]))
             = posts ?st @ [segment_request (currentVideoId ?st) n]
         \<and> segment_fetches (run (popup_init pg) (evs @ [ItemClick i, ItemClick i]))
             = segment_fetches ?st @ [n]"
    if "item_of ?st i n" and "entry ?st n = None" for i n
  proof -
    let ?st1 = "step ?st (ItemClick i)"
    note first = click_on_empty [OF that cont]
    then have "item_of ?st1 i n" and "entry ?st1 n = Some SegLoading" by simp_all
    then have second: "posts (step ?st1 (ItemClick i)) = posts ?st1
         \<and> segment_fetches (step ?st1 (ItemClick i)) = segment_fetches ?st1"
      using click_on_entry by blast
    have "run (popup_init pg) (evs @ [ItemClick i, ItemClick i]) = step ?st1 (ItemClick i)"
      by (simp add: run_def)
    with first second show ?thesis by simp
  qed
  from a b c show ?thesis by blast
qed

theorem C1_single_fetch_witness:
  "BackClick \<notin> set [CardClick ''timestamps'', FeatureResponse 0 timestamps_ok, ItemClick 0]
   \<and> item_of (run (popup_init watch_page) [CardClick ''timestamps'', FeatureResponse 0 timestamps_ok, ItemClick 0]) 0 0
   \<and> 0 \<in> set (segment_fetches (run (popup_init watch_page)
           [CardClick ''timestamps'', FeatureResponse 0 timestamps_ok, ItemClick 0]))
   \<and> posts (step (run (popup_init watch_page)
           [CardClick ''timestamps'', FeatureResponse 0 timestamps_ok, ItemClick 0]) (ItemClick 0))
       = posts (run (popup_init watch_page) [CardClick ''timestamps'', FeatureResponse 0 timestamps_ok, ItemClick 0])
   \<and> item_of (run (popup_init watch_page) [CardClick ''timestamps'', FeatureResponse 0 timestamps_ok]) 0 0
   \<and> entry (run (popup_init watch_page) [CardClick ''timestamps'', FeatureResponse 0 timestamps_ok]) 0 = None
   \<and> segment_fetches (run (popup_init watch_page)
         ([CardClick ''timestamps'', FeatureResponse 0 timestamps_ok] @ [ItemClick 0, ItemClick 0])) = [0]"
  using C1_single_fetch_without_back
          [of "[CardClick ''timestamps'', FeatureResponse 0 timestamps_ok, ItemClick 0]" watch_page]
        C1_single_fetch_without_back
          [of "[CardClick ''timestamps'', FeatureResponse 0 timestamps_ok]" watch_page]
  by (simp add: sample_defs popup_defs item_of_def)

text \<open>
  The claim without the restriction fails: the summaries live in the elements of the shown
  list, Back removes them and the next timestamps response renders empty containers, so a
  segment clicked before Back and again after it has two fetches in flight.
\<close>

theorem C1_two_fetches_after_back:
  "segment_fetches (run (popup_init watch_page)
       [CardClick ''timestamps'', FeatureResponse 0 timestamps_ok, ItemClick 0, BackClick,
        CardClick ''timestamps'', FeatureResponse 0 timestamps_ok, ItemClick 0]) = [0, 0]
   \<and> posts (run (popup_init watch_page)
       [CardClick ''timestamps'', FeatureResponse 0 timestamps_ok, ItemClick 0, BackClick,
        CardClick ''timestamps'', FeatureResponse 0 timestamps_ok, ItemClick 0])
     = [\<lparr>url = ''http://localhost:5000/api/timestamps'', body = generic_body (Some ''abc123'')\<rparr>,
        segment_request (Some ''abc123'') 0,
        \<lparr>url = ''http://localhost:5000/api/timestamps'', body = generic_body (Some ''abc123'')\<rparr>,
        segment_request (Some ''abc123'') 0]"
  by (simp add: sample_defs popup_defs)

text \<open>
  C2 (as amended). In a popup session in which Back is not clicked, once the entry of a
  segment holds a summary or an error: it holds exactly that for the rest of the session;
  no fetch for the segment is pending and no further POST for it is sent, whatever the
  events; a click on its item sends no request, starts no fetch, leaves every entry as it
  is and only flips the class \<^verbatim>\<open>hidden\<close> of its container, besides the seek message to
  the tab; and the close button sends nothing and leaves the content.
\<close>

theorem C2_stored_entry_without_back:
  assumes "BackClick \<notin> set evs" and "BackClick \<notin> set evs'"
    and "entry (run (popup_init pg) evs) n = Some x" and "x \<noteq> SegLoading"
  shows "entry (run (popup_init pg) (evs @ evs')) n = Some x
     \<and> n \<notin> set (segment_fetches (run (popup_init pg) (evs @ evs')))
     \<and> count_list (posts (run (popup_init pg) (evs @ evs'))) (segment_request v n)
         = count_list (posts (run (popup_init pg) evs)) (segment_request v n)
     \<and> (\<forall>i. item_of (run (popup_init pg) (evs @ evs')) i n \<longrightarrow>
           posts (step (run (popup_init pg) (evs @ evs')) (ItemClick i))
             = posts (run (popup_init pg) (evs @ evs'))
         \<and> segment_fetches (step (run (popup_init pg) (evs @ evs')) (ItemClick i))
             = segment_fetches (run (popup_init pg) (evs @ evs'))
         \<and> feature_fetches (step (run (popup_init pg) (evs @ evs')) (ItemClick i))
             = feature_fetches (run (popup_init pg) (evs @ evs'))
         \<and> (\<forall>m. entry (step (run (popup_init pg) (evs @ evs')) (ItemClick i)) m
                  = entry (run (popup_init pg) (evs @ evs')) m)
         \<and> entry_hidden (step (run (popup_init pg) (evs @ evs')) (ItemClick i)) n
             = (\<not> entry_hidden (run (popup_init pg) (evs @ evs')) n)
         \<and> tab_messages (step (run (popup_init pg) (evs @ evs')) (ItemClick i))
             = tab_messages (run (popup_init pg) (evs @ evs'))
               @ [NavigateToTime (item_time (run (popup_init pg) (evs @ evs')) i)])
     \<and> posts (step (run (popup_init pg) (evs @ evs')) (CloseClick n))
         = posts (run (popup_init pg) (evs @ evs'))
     \<and> segment_fetches (step (run (popup_init pg) (evs @ evs')) (CloseClick n))
         = segment_fetches (run (popup_init pg) (evs @ evs'))
     \<and> entry (step (run (popup_init pg) (evs @ evs')) (CloseClick n)) n = Some x"
proof -
  let ?st = "run (popup_init pg) evs"
  let ?st' = "run (popup_init pg) (evs @ evs')"
  have st': "?st' = run ?st evs'" by (rule run_append)
  have inv: "session_inv ?st" using inv_init assms(1) by (rule inv_run)
  have inv': "session_inv ?st'" unfolding st' using inv assms(2) by (rule inv_run)
  have a: "entry ?st' n = Some x"
    unfolding st' using inv assms(2,3,4) by (rule entry_keep_run)
  have b: "n \<notin> set (segment_fetches ?st')"
  proof
    assume "n \<in> set (segment_fetches ?st')"
    with inv' have "entry ?st' n = Some SegLoading" by (simp add: session_inv_def)
    with a assms(4) show False by simp
  qed
  have c: "count_list (posts ?st') (segment_request v n) = count_list (posts ?st) (segment_request v n)"
    unfolding st' using inv assms(2,3,4) by (rule posts_keep_run)
  have d: "posts (step ?st' (ItemClick i)) = posts ?st'
         \<and> segment_fetches (step ?st' (ItemClick i)) = segment_fetches ?st'
         \<and> feature_fetches (step ?st' (ItemClick i)) = feature_fetches ?st'
         \<and> (\<forall>m. entry (step ?st' (ItemClick i)) m = entry ?st' m)
         \<and> entry_hidden (step ?st' (ItemClick i)) n = (\<not> entry_hidden ?st' n)
         \<and> tab_messages (step ?st' (ItemClick i))
             = tab_messages ?st' @ [NavigateToTime (item_time ?st' i)]"
    if "item_of ?st' i n" for i
    using click_on_entry [OF that a] click_on_entry_display [OF that a] by simp
  have e: "posts (step ?st' (CloseClick n)) = posts ?st'
         \<and> segment_fetches (step ?st' (CloseClick n)) = segment_fetches ?st'
         \<and> entry (step ?st' (CloseClick n)) n = Some x"
    using close_on_entry [of ?st' n n] a by simp
  from a b c d e show ?thesis by blast
qed

theorem C2_stored_entry_witness:
  "BackClick \<notin> set [CardClick ''timestamps'', FeatureResponse 0 timestamps_ok, ItemClick 0,
                      SegmentResponse 0 summary_ok]
   \<and> BackClick \<notin> set [ItemClick 0, CloseClick 0, ItemClick 0]
   \<and> entry (run (popup_init watch_page)
        [CardClick ''timestamps'', FeatureResponse 0 timestamps_ok, ItemClick 0,
         SegmentResponse 0 summary_ok]) 0
       = Some (SegSummary ''0:12'' ''The host says hello.'')
   \<and> SegSummary ''0:12'' ''The host says hello.'' \<noteq> SegLoading
   \<and> item_of (run (popup_init watch_page)
        ([CardClick ''timestamps'', FeatureResponse 0 timestamps_ok, ItemClick 0,
          SegmentResponse 0 summary_ok] @ [ItemClick 0, CloseClick 0, ItemClick 0])) 0 0
   \<and> entry (run (popup_init watch_page)
        ([CardClick ''timestamps'', FeatureResponse 0 timestamps_ok, ItemClick 0,
          SegmentResponse 0 summary_ok] @ [ItemClick 0, CloseClick 0, ItemClick 0])) 0
       = Some (SegSummary ''0:12'' ''The host says hello.'')
   \<and> posts (step (run (popup_init watch_page)
        ([CardClick ''timestamps'', FeatureResponse 0 timestamps_ok, ItemClick 0,
          SegmentResponse 0 summary_ok] @ [ItemClick 0, CloseClick 0, ItemClick 0])) (ItemClick 0))
       = [\<lparr>url = ''http://localhost:5000/api/timestamps'', body = generic_body (Some ''abc123'')\<rparr>,
          segment_request (Some ''abc123'') 0]"
  using C2_stored_entry_without_back
          [of "[CardClick ''timestamps'', FeatureResponse 0 timestamps_ok, ItemClick 0,
                SegmentResponse 0 summary_ok]"
              "[ItemClick 0, CloseClick 0, ItemClick 0]" watch_page 0
              "SegSummary ''0:12'' ''The host says hello.''" "Some ''abc123''"]
  by (simp add: sample_defs popup_defs item_of_def close_click_def has_close_button_def)

text \<open>
  The claim without the restriction fails: after Back and the next timestamps response, a
  click on the item of a segment whose summary had been shown fetches it again.
\<close>

theorem C2_ready_entry_fetched_again_after_back:
  "entry (run (popup_init watch_page)
       [CardClick ''timestamps'', FeatureResponse 0 timestamps_ok, ItemClick 0,
        SegmentResponse 0 summary_ok]) 0
     = Some (SegSummary ''0:12'' ''The host says hello.'')
   \<and> posts (run (popup_init watch_page)
       [CardClick ''timestamps'', FeatureResponse 0 timestamps_ok, ItemClick 0,
        SegmentResponse 0 summary_ok,
        BackClick, CardClick ''timestamps'', FeatureResponse 0 timestamps_ok, ItemClick 0])
     = [\<lparr>url = ''http://localhost:5000/api/timestamps'', body = generic_body (Some ''abc123'')\<rparr>,
        segment_request (Some ''abc123'') 0,
        \<lparr>url = ''http://localhost:5000/api/timestamps'', body = generic_body (Some ''abc123'')\<rparr>,
        segment_request (Some ''abc123'') 0]
   \<and> entry (run (popup_init watch_page)
       [CardClick ''timestamps'', FeatureResponse 0 timestamps_ok, ItemClick 0,
        SegmentResponse 0 summary_ok,
        BackClick, CardClick ''timestamps'', FeatureResponse 0 timestamps_ok, ItemClick 0]) 0
     = Some SegLoading"
  by (simp add: sample_defs popup_defs)

text \<open>
  C8 (as amended). In a popup session in which Back is not clicked, the entry of a segment
  moves only forward: from no entry the next event leaves no entry or the loading notice;
  an entry that exists keeps existing; and an entry that holds a summary or an error holds
  exactly that for the rest of the session.
\<close>

theorem C8_entry_order_without_back:
  assumes "BackClick \<notin> set evs" and "BackClick \<notin> set evs'"
  shows "(entry (run (popup_init pg) evs) n = None \<longrightarrow>
            entry (step (run (popup_init pg) evs) e) n = None
            \<or> entry (step (run (popup_init pg) evs) e) n = Some SegLoading)
     \<and> (entry (run (popup_init pg) evs) n \<noteq> None \<longrightarrow>
            entry (run (popup_init pg) (evs @ evs')) n \<noteq> None)
     \<and> (entry (run (popup_init pg) evs) n = Some x \<and> x \<noteq> SegLoading \<longrightarrow>
            entry (run (popup_init pg) (evs @ evs')) n = Some x)"
proof -
  let ?st = "run (popup_init pg) evs"
  have inv: "session_inv ?st" using inv_init assms(1) by (rule inv_run)
  have a: "entry (step ?st e) n = None \<or> entry (step ?st e) n = Some SegLoading"
    if "entry ?st n = None"
    using that by (rule entry_from_none_step)
  have b: "entry (run ?st evs') n \<noteq> None" if "entry ?st n \<noteq> None"
    using that entry_some_run [OF inv assms(2)] by fastforce
  have c: "entry (run ?st evs') n = Some x" if "entry ?st n = Some x" and "x \<noteq> SegLoading"
    using inv assms(2) that by (rule entry_keep_run)
  from a b c show ?thesis by (simp add: run_append)
qed

theorem C8_entry_order_witness:
  "BackClick \<notin> set [CardClick ''timestamps'', FeatureResponse 0 timestamps_ok]
   \<and> BackClick \<notin> set [ItemClick 0, SegmentResponse 0 summary_ok]
   \<and> BackClick \<notin> set [ItemClick 0, CloseClick 0, ItemClick 0]
   \<and> entry (run (popup_init watch_page) [CardClick ''timestamps'', FeatureResponse 0 timestamps_ok]) 0 = None
   \<and> entry (step (run (popup_init watch_page) [CardClick ''timestamps'', FeatureResponse 0 timestamps_ok])
               (ItemClick 0)) 0 = Some SegLoading
   \<and> entry (run (popup_init watch_page)
              ([CardClick ''timestamps'', FeatureResponse 0 timestamps_ok]
               @ [ItemClick 0, SegmentResponse 0 summary_ok])) 0
       = Some (SegSummary ''0:12'' ''The host says hello.'')
   \<and> entry (run (popup_init watch_page)
              (([CardClick ''timestamps'', FeatureResponse 0 timestamps_ok]
               @ [ItemClick 0, SegmentResponse 0 summary_ok]) @ [ItemClick 0, CloseClick 0, ItemClick 0])) 0
       = Some (SegSummary ''0:12'' ''The host says hello.'')"
  using C8_entry_order_without_back
          [of "[CardClick ''timestamps'', FeatureResponse 0 timestamps_ok]"
              "[ItemClick 0, SegmentResponse 0 summary_ok]" watch_page 0 "ItemClick 0"]
        C8_entry_order_without_back
          [of "[CardClick ''timestamps'', FeatureResponse 0 timestamps_ok] @ [ItemClick 0, SegmentResponse 0 summary_ok]"
              "[ItemClick 0, CloseClick 0, ItemClick 0]" watch_page 0 "ItemClick 0"
              "SegSummary ''0:12'' ''The host says hello.''"]
  by (simp add: sample_defs popup_defs close_click_def has_close_button_def)

text \<open>
  The claim without the restriction fails: Back removes every element of class
  \<^verbatim>\<open>segment-summary\<close>, so a ready entry returns to no entry.
\<close>

theorem C8_back_removes_ready_entry:
  "entry (run (popup_init watch_page)
       [CardClick ''timestamps'', FeatureResponse 0 timestamps_ok, ItemClick 0, SegmentResponse 0 summary_ok]) 0
     = Some (SegSummary ''0:12'' ''The host says hello.'')
   \<and> entry (run (popup_init watch_page)
       [CardClick ''timestamps'', FeatureResponse 0 timestamps_ok, ItemClick 0, SegmentResponse 0 summary_ok,
        BackClick]) 0
     = None"
  by (simp add: sample_defs popup_defs)

end
